theory Spec2Isabelle
  imports Main
begin

section \<open>JavaScript values\<close>

text \<open>
  The evaluator of \<^verbatim>\<open>servers/cu/src/domain/lib/readState/evaluate.js\<close> moves untyped
  JavaScript values around: states, actions, handler outputs, thrown reasons. They are
  modelled by one datatype. An object is a map from property names to values, so that a
  property that is present with the value \<^verbatim>\<open>undefined\<close> or \<^verbatim>\<open>null\<close> differs from a
  property that is absent, which is what the object spread of the source observes.
  Numbers are integers; nothing in the evaluator computes with them.
\<close>

datatype jsval =
    JUndefined
  | JNull
  | JBool bool
  | JNum int
  | JStr string
  | JArr "jsval list"
  | JObj "string \<Rightarrow> jsval option"

text \<open>JavaScript truthiness, as used by \<^verbatim>\<open>&&\<close> and \<^verbatim>\<open>if\<close>.\<close>

fun truthy :: "jsval \<Rightarrow> bool" where
  "truthy JUndefined = False"
| "truthy JNull = False"
| "truthy (JBool b) = b"
| "truthy (JNum n) = (n \<noteq> 0)"
| "truthy (JStr s) = (s \<noteq> [])"
| "truthy (JArr xs) = True"
| "truthy (JObj m) = True"

text \<open>
  Property read \<^verbatim>\<open>v[k]\<close> (and ramda's \<^verbatim>\<open>prop(k, v)\<close>) for the named properties the
  evaluator reads: \<^verbatim>\<open>state\<close>, \<^verbatim>\<open>result\<close>, \<^verbatim>\<open>error\<close> and the two transducer keys. On an
  object it is the property or \<^verbatim>\<open>undefined\<close>; on the other values none of these names
  is defined. Every read of the source on a possibly nullish value is guarded by
  \<^verbatim>\<open>&&\<close>, or goes through \<^verbatim>\<open>prop\<close>, which returns \<^verbatim>\<open>undefined\<close> there.
\<close>

fun prop_js :: "string \<Rightarrow> jsval \<Rightarrow> jsval" where
  "prop_js k (JObj m) = (case m k of Some v \<Rightarrow> v | None \<Rightarrow> JUndefined)"
| "prop_js k v = JUndefined"

text \<open>The own properties that an object spread \<^verbatim>\<open>...v\<close> copies.\<close>

fun spread :: "jsval \<Rightarrow> (string \<Rightarrow> jsval option)" where
  "spread (JObj m) = m"
| "spread v = Map.empty"

text \<open>ramda's \<^verbatim>\<open>assocPath([k1, k2], v, {})\<close>, for the two-element path the source uses.\<close>

definition assocPath2 :: "string \<Rightarrow> string \<Rightarrow> jsval \<Rightarrow> jsval" where
  "assocPath2 k1 k2 v = JObj [k1 \<mapsto> JObj [k2 \<mapsto> v]]"

text \<open>
  The transducer protocol's marker. \<^verbatim>\<open>isReduced\<close> is the check that the source copies
  from ramda (\<^verbatim>\<open>output && output['@@transducer/reduced']\<close>); \<^verbatim>\<open>reduced\<close> is ramda's
  function, which leaves a value that already carries the marker as it is.
\<close>

definition isReduced :: "jsval \<Rightarrow> bool" where
  "isReduced v = (truthy v \<and> truthy (prop_js ''@@transducer/reduced'' v))"

definition reduced :: "jsval \<Rightarrow> jsval" where
  "reduced x =
     (if isReduced x then x
      else JObj [''@@transducer/value'' \<mapsto> x, ''@@transducer/reduced'' \<mapsto> JBool True])"

section \<open>The pipeline kernel\<close>

text \<open>
  An \<^verbatim>\<open>Async\<close> of hyper-async is a lazy computation that ends rejected or resolved.
  Here it is a function of the state of the world outside the evaluator (the cache and
  the clock) that returns its outcome (\<open>Inl\<close> rejected, \<open>Inr\<close> resolved), the world
  afterwards, and the calls it made to the injected functions, in order:
  \<open>Invoked st a g\<close> is a call \<^verbatim>\<open>ctx.handle(st, a, g)\<close>, and \<open>Saved r ok\<close> a call
  \<^verbatim>\<open>saveEvaluation(r)\<close> together with whether it resolved.
\<close>

datatype event =
    Invoked jsval jsval jsval
  | Saved jsval bool

type_synonym ('w, 'e, 'a) async = "'w \<Rightarrow> ('e + 'a) \<times> 'w \<times> event list"

definition Resolved :: "'a \<Rightarrow> ('w, 'e, 'a) async" where
  "Resolved x = (\<lambda>w. (Inr x, w, []))"

definition Rejected :: "'e \<Rightarrow> ('w, 'e, 'a) async" where
  "Rejected e = (\<lambda>w. (Inl e, w, []))"

definition Async_of :: "'a \<Rightarrow> ('w, 'e, 'a) async" where
  "Async_of x = Resolved x"

definition Async_bichain ::
  "('w, 'e, 'a) async \<Rightarrow> ('e \<Rightarrow> ('w, 'f, 'b) async) \<Rightarrow> ('a \<Rightarrow> ('w, 'f, 'b) async)
     \<Rightarrow> ('w, 'f, 'b) async" where
  "Async_bichain m f g =
     (\<lambda>w. case m w of (r, w1, t1) \<Rightarrow>
        (case (case r of Inl e \<Rightarrow> f e w1 | Inr x \<Rightarrow> g x w1) of
           (r2, w2, t2) \<Rightarrow> (r2, w2, t1 @ t2)))"

definition Async_chain ::
  "('w, 'e, 'a) async \<Rightarrow> ('a \<Rightarrow> ('w, 'e, 'b) async) \<Rightarrow> ('w, 'e, 'b) async" where
  "Async_chain m g = Async_bichain m Rejected g"

definition Async_bimap ::
  "('w, 'e, 'a) async \<Rightarrow> ('e \<Rightarrow> 'f) \<Rightarrow> ('a \<Rightarrow> 'b) \<Rightarrow> ('w, 'f, 'b) async" where
  "Async_bimap m f g = Async_bichain m (\<lambda>e. Rejected (f e)) (\<lambda>x. Resolved (g x))"

definition Async_map :: "('w, 'e, 'a) async \<Rightarrow> ('a \<Rightarrow> 'b) \<Rightarrow> ('w, 'e, 'b) async" where
  "Async_map m g = Async_chain m (\<lambda>x. Resolved (g x))"

section \<open>The context and what is injected\<close>

text \<open>
  The handler that \<^verbatim>\<open>AoLoader\<close> builds from the module's bytes takes the state, the
  action and \<^verbatim>\<open>SWGlobal\<close> and returns a promise: \<open>Inl\<close> is the reason it rejects with
  (a throw inside it), \<open>Inr\<close> the object it resolves to. It is a function of its
  arguments alone. \<^verbatim>\<open>AoLoader\<close> itself is taken as a function from the bytes to the
  handler; a module that cannot be instantiated is outside this model, as is a handler
  that resolves to something other than an object.
\<close>

type_synonym handler =
  "jsval \<Rightarrow> jsval \<Rightarrow> jsval \<Rightarrow> jsval + (string \<Rightarrow> jsval option)"

text \<open>
  An element of \<^verbatim>\<open>ctx.actions\<close>, as the reducer destructures it, and the properties
  of the context that the evaluator reads (\<open>id'\<close> is \<^verbatim>\<open>ctx.id\<close>); its other
  properties pass through untouched. The evaluation returns the context with \<^verbatim>\<open>output\<close>
  added.
\<close>

record interaction =
  action :: jsval
  sortKey :: jsval
  SWGlobal :: jsval

record ctx =
  id' :: jsval
  state :: jsval
  result :: jsval
  src :: "nat list"
  actions :: "interaction list"

record ctx_output = ctx +
  "output" :: jsval

text \<open>
  \<^verbatim>\<open>env.saveEvaluation\<close>, wrapped by its schema and by \<^verbatim>\<open>fromPromise\<close>, takes the record
  to persist and the world, and rejects or resolves; \<^verbatim>\<open>new Date()\<close> reads the clock of
  the world. The logger only writes log lines: its \<^verbatim>\<open>tap\<close> returns its argument.
\<close>

record 'w env =
  saveEvaluation :: "jsval \<Rightarrow> 'w \<Rightarrow> (jsval + jsval) \<times> 'w"
  newDate :: "'w \<Rightarrow> jsval"

definition logger_tap :: "'a \<Rightarrow> 'a" where
  "logger_tap x = x"

section \<open>The evaluator\<close>

definition addHandler ::
  "(nat list \<Rightarrow> handler) \<Rightarrow> ctx \<Rightarrow> ('w, jsval, handler \<times> ctx) async" where
  "addHandler AoLoader c =
     Async_map (Async_map (Async_of (src c)) AoLoader) (\<lambda>handle. (handle, c))"

definition cacheEvaluationWith :: "'w env \<Rightarrow> jsval \<Rightarrow> ('w, jsval, jsval) async" where
  "cacheEvaluationWith e evaluation =
     Async_chain (Async_map (Async_of evaluation) logger_tap)
       (\<lambda>ev w. case saveEvaluation e ev w of
                 (Inl err, w1) \<Rightarrow> (Inl err, w1, [Saved ev False])
               | (Inr v, w1) \<Rightarrow> (Inr v, w1, [Saved ev True]))"

definition maybeReducedError ::
  "(jsval \<Rightarrow> ('w, jsval, jsval) async) \<Rightarrow> jsval \<Rightarrow> ('w, jsval, jsval) async" where
  "maybeReducedError With out =
     (if isReduced out then With (prop_js ''@@transducer/value'' out) else Resolved out)"

definition maybeResolveError :: "jsval \<Rightarrow> ('w, jsval, jsval) async" where
  "maybeResolveError = maybeReducedError Resolved"

definition maybeRejectError :: "jsval \<Rightarrow> ('w, jsval, jsval) async" where
  "maybeRejectError = maybeReducedError Rejected"

text \<open>
  \<^verbatim>\<open>fromPromise((state) => ctx.handle(state, action, SWGlobal))\<close>: one call of the
  handler.
\<close>

definition fromPromise_handle ::
  "handler \<Rightarrow> interaction \<Rightarrow> jsval \<Rightarrow> ('w, jsval, jsval) async" where
  "fromPromise_handle handle i st =
     (\<lambda>w. (map_sum (\<lambda>err. err) JObj (handle st (action i) (SWGlobal i)), w,
            [Invoked st (action i) (SWGlobal i)]))"

text \<open>The object literal handed to \<^verbatim>\<open>cacheEvaluation\<close>.\<close>

definition evaluation_record ::
  "ctx \<Rightarrow> interaction \<Rightarrow> jsval \<Rightarrow> jsval \<Rightarrow> jsval" where
  "evaluation_record c i out date =
     JObj [''sortKey'' \<mapsto> sortKey i, ''parent'' \<mapsto> id' c, ''action'' \<mapsto> action i,
           ''output'' \<mapsto> out, ''cachedAt'' \<mapsto> date]"

text \<open>
  The handler call of one step with its \<^verbatim>\<open>bichain\<close>: a rejection of the handler is
  mapped to a resolved \<^verbatim>\<open>{ result: { error: err } }\<close>.
\<close>

definition invoke_handler ::
  "handler \<Rightarrow> interaction \<Rightarrow> jsval \<Rightarrow> ('w, jsval, jsval) async" where
  "invoke_handler handle i st =
     Async_bichain
       (Async_chain (Async_of st) (fromPromise_handle handle i))
       (\<lambda>err. Resolved (assocPath2 ''result'' ''error'' err))
       Resolved"

text \<open>The test \<^verbatim>\<open>output.result && output.result.error\<close> of a step's output.\<close>

definition failing :: "jsval \<Rightarrow> bool" where
  "failing out =
     (truthy (prop_js ''result'' out) \<and> truthy (prop_js ''error'' (prop_js ''result'' out)))"

text \<open>The function that \<^verbatim>\<open>reduce\<close> folds over \<^verbatim>\<open>ctx.actions\<close>.\<close>

definition reducer ::
  "'w env \<Rightarrow> handler \<Rightarrow> ctx \<Rightarrow> ('w, jsval, jsval) async \<Rightarrow> interaction
     \<Rightarrow> ('w, jsval, jsval) async" where
  "reducer e handle c acc i =
     Async_bichain
       (Async_chain
          (Async_bimap
             (Async_chain
                (Async_map (Async_chain acc maybeRejectError) (prop_js ''state''))
                (\<lambda>st.
                   Async_chain
                     (invoke_handler handle i st)
                     (\<lambda>out.
                        if failing out then Rejected out
                        else Resolved (JObj ([''state'' \<mapsto> st] ++ spread out)))))
             logger_tap logger_tap)
          (\<lambda>out.
             Async_map
               (\<lambda>w. cacheEvaluationWith e (evaluation_record c i out (newDate e w)) w)
               (\<lambda>_. out)))
       (\<lambda>err. Resolved (reduced err))
       Resolved"

text \<open>
  \<^verbatim>\<open>ctxSchema.parse\<close>: the context must carry an \<^verbatim>\<open>output\<close> that is a record, that is
  an object and not an array; other properties pass through. A value that fails the
  schema makes \<^verbatim>\<open>parse\<close> throw, which ends the evaluation rejected. An accepted
  context is returned as it is. The last \<^verbatim>\<open>map\<close> of the evaluation is therefore a
  \<^verbatim>\<open>bichain\<close> here: a rejection that came up the pipeline is kept apart from the
  schema's (\<open>Rejection\<close> and \<open>ZodError\<close>).
\<close>

datatype failure = Rejection jsval | ZodError

fun ctxSchema_parse :: "ctx_output \<Rightarrow> failure + ctx_output" where
  "ctxSchema_parse c = (case output c of JObj m \<Rightarrow> Inr c | _ \<Rightarrow> Inl ZodError)"

definition assoc_output :: "jsval \<Rightarrow> ctx \<Rightarrow> ctx_output" where
  "assoc_output out c =
     \<lparr>id' = id' c, state = state c, result = result c, src = src c, actions = actions c,
      output = out\<rparr>"

definition evaluateWith ::
  "'w env \<Rightarrow> (nat list \<Rightarrow> handler) \<Rightarrow> ctx \<Rightarrow> ('w, failure, ctx_output) async" where
  "evaluateWith e AoLoader c =
     Async_bichain
       (Async_map
          (Async_chain
             (Async_chain
                (Async_chain (Async_of c) (addHandler AoLoader))
                (\<lambda>(handle, c1).
                   foldl (reducer e handle c1)
                     (Async_of (JObj [''state'' \<mapsto> state c1, ''result'' \<mapsto> result c1]))
                     (actions c1)))
             maybeResolveError)
          (\<lambda>out. assoc_output out c))
       (\<lambda>err. Rejected (Rejection err))
       (\<lambda>c2. case ctxSchema_parse c2 of Inl z \<Rightarrow> Rejected z | Inr c3 \<Rightarrow> Resolved c3)"

section \<open>Notions used to state the properties\<close>

text \<open>
  The output of a step before the failure test (lines 93 to 103 of the source): what the
  handler resolved to, or the object built from the reason it rejected with.
\<close>

definition step_output :: "handler \<Rightarrow> interaction \<Rightarrow> jsval \<Rightarrow> jsval" where
  "step_output handle i st =
     (case handle st (action i) (SWGlobal i) of
        Inl err \<Rightarrow> assocPath2 ''result'' ''error'' err
      | Inr m \<Rightarrow> JObj m)"

text \<open>
  What \<^verbatim>\<open>maybeResolveError\<close> resolves to, the accumulator the reduction starts from,
  and the records of a trace whose save resolved.
\<close>

definition unwrap :: "jsval \<Rightarrow> jsval" where
  "unwrap v = (if isReduced v then prop_js ''@@transducer/value'' v else v)"

definition initial :: "ctx \<Rightarrow> jsval" where
  "initial c = JObj [''state'' \<mapsto> state c, ''result'' \<mapsto> result c]"

definition persisted :: "event list \<Rightarrow> jsval list" where
  "persisted t =
     concat (map (\<lambda>ev. case ev of
                          Saved r ok \<Rightarrow> (if ok then [r] else [])
                        | Invoked st a g \<Rightarrow> []) t)"


text \<open>
  The operator \<^verbatim>\<open>??\<close> of the specification's step 3c
  (\<^verbatim>\<open>output.state ?? acc.state\<close>), to compare the source with.
\<close>

definition nullish_coalesce :: "jsval \<Rightarrow> jsval \<Rightarrow> jsval" where
  "nullish_coalesce a b = (if a = JUndefined \<or> a = JNull then b else a)"





section \<open>Concrete inputs\<close>

text \<open>
  A handler that answers by the action it is given, a cache that accepts every record
  (the world is a counter that each save advances, and the clock reads it), a cache
  whose clock is elsewhere, a cache that rejects every record, and contexts.
\<close>

fun demo_handle :: handler where
  "demo_handle st (JStr a) g =
     (if a = ''inc'' then Inr [''state'' \<mapsto> JNum 1]
      else if a = ''msg'' then Inr [''messages'' \<mapsto> JArr [JStr ''hello'']]
      else if a = ''null'' then Inr [''state'' \<mapsto> JNull]
      else if a = ''boom'' then Inr [''result'' \<mapsto> JObj [''error'' \<mapsto> JStr ''boom'']]
      else if a = ''trap'' then Inl (JStr ''unreachable'')
      else if a = ''silent'' then Inl JUndefined
      else if a = ''mark'' then
        Inr [''@@transducer/reduced'' \<mapsto> JBool True,
             ''@@transducer/value'' \<mapsto> JObj [''x'' \<mapsto> JNum 1]]
      else Inr Map.empty)"
| "demo_handle st a g = Inr Map.empty"

definition demo_loader :: "nat list \<Rightarrow> handler" where
  "demo_loader bytes = demo_handle"

definition demo_env :: "nat env" where
  "demo_env = \<lparr>saveEvaluation = (\<lambda>r n. (Inr JUndefined, Suc n)), newDate = (\<lambda>n. JNum (int n))\<rparr>"


definition down_env :: "nat env" where
  "down_env = \<lparr>saveEvaluation = (\<lambda>r n. (Inl (JObj [''message'' \<mapsto> JStr ''db down'']), n)),
               newDate = (\<lambda>n. JNum (int n))\<rparr>"

definition demo_interaction :: "string \<Rightarrow> string \<Rightarrow> interaction" where
  "demo_interaction k a = \<lparr>action = JStr a, sortKey = JStr k, SWGlobal = JNull\<rparr>"

definition demo_ctx :: "interaction list \<Rightarrow> ctx" where
  "demo_ctx xs = \<lparr>id' = JStr ''p1'', state = JObj [''n'' \<mapsto> JNum 0], result = JObj Map.empty,
                  src = [], actions = xs\<rparr>"


section \<open>The reducer and the evaluation, step by step\<close>

text \<open>
  The pipeline of one step and of the whole evaluation, unfolded into the cases the
  source distinguishes.
\<close>

lemma invoke_handler_unfold:
  "invoke_handler h i st w = (Inr (step_output h i st), w, [Invoked st (action i) (SWGlobal i)])"
  unfolding invoke_handler_def Async_bichain_def Async_chain_def Async_of_def Resolved_def
    Rejected_def fromPromise_handle_def step_output_def
  by (simp split: sum.splits)

lemma reducer_unfold:
  "reducer e h c acc i w =
     (case acc w of
        (Inl err, w1, t1) \<Rightarrow> (Inr (reduced err), w1, t1)
      | (Inr v, w1, t1) \<Rightarrow>
          (if isReduced v then (Inr (reduced (prop_js ''@@transducer/value'' v)), w1, t1)
           else
            (let st = prop_js ''state'' v;
                out = step_output h i st;
                t2 = t1 @ [Invoked st (action i) (SWGlobal i)]
            in (if failing out then (Inr (reduced out), w1, t2)
               else
                 (let out' = JObj ([''state'' \<mapsto> st] ++ spread out);
                     ev = evaluation_record c i out' (newDate e w1)
                 in (case saveEvaluation e ev w1 of
                      (Inl err, w2) \<Rightarrow> (Inr (reduced err), w2, t2 @ [Saved ev False])
                    | (Inr x, w2) \<Rightarrow> (Inr out', w2, t2 @ [Saved ev True])))))))"
  unfolding reducer_def Async_bichain_def Async_chain_def Async_bimap_def Async_map_def
    Async_of_def Resolved_def Rejected_def maybeRejectError_def maybeReducedError_def
    cacheEvaluationWith_def logger_tap_def Let_def invoke_handler_unfold
  by (auto split: prod.splits sum.splits)

lemma evaluateWith_unfold:
  "evaluateWith e L c w =
     (case foldl (reducer e (L (src c)) c) (Async_of (initial c)) (actions c) w of
        (Inl err, w1, t) \<Rightarrow> (Inl (Rejection err), w1, t)
      | (Inr v, w1, t) \<Rightarrow>
          (case unwrap v of
             JObj m \<Rightarrow> (Inr (assoc_output (unwrap v) c), w1, t)
           | _ \<Rightarrow> (Inl ZodError, w1, t)))"
  unfolding evaluateWith_def Async_bichain_def Async_chain_def Async_map_def
    Async_of_def Resolved_def Rejected_def maybeResolveError_def maybeReducedError_def
    addHandler_def unwrap_def initial_def
  by (auto split: prod.splits sum.splits jsval.splits simp: assoc_output_def)

lemma evaluateWith_trace:
  "snd (snd (evaluateWith e L c w)) =
     snd (snd (foldl (reducer e (L (src c)) c) (Async_of (initial c)) (actions c) w))"
  by (simp add: evaluateWith_unfold split: prod.splits sum.splits jsval.splits)


lemma isReduced_reduced: "isReduced (reduced x)"
  by (simp add: reduced_def isReduced_def)

lemma unwrap_reduced: "\<not> isReduced x \<Longrightarrow> unwrap (reduced x) = x"
  by (auto simp add: reduced_def isReduced_def unwrap_def)

lemma value_reduced: "\<not> isReduced x \<Longrightarrow> prop_js ''@@transducer/value'' (reduced x) = x"
  by (auto simp add: reduced_def isReduced_def)

lemma step_output_object: "\<exists>m. step_output h i st = JObj m"
  by (simp add: step_output_def assocPath2_def split: sum.splits)

lemma reducer_failing:
  assumes "acc w = (Inr v, w1, t1)" and "\<not> isReduced v"
    and "failing (step_output h i (prop_js ''state'' v))"
  shows "reducer e h c acc i w =
           (Inr (reduced (step_output h i (prop_js ''state'' v))), w1,
            t1 @ [Invoked (prop_js ''state'' v) (action i) (SWGlobal i)])"
  using assms by (simp add: reducer_unfold Let_def)

lemma reducer_saved:
  assumes "acc w = (Inr v, w1, t1)" and "\<not> isReduced v"
    and "\<not> failing (step_output h i (prop_js ''state'' v))"
    and "out = JObj ([''state'' \<mapsto> prop_js ''state'' v] ++ spread (step_output h i (prop_js ''state'' v)))"
    and "saveEvaluation e (evaluation_record c i out (newDate e w1)) w1 = (Inr x, w2)"
  shows "reducer e h c acc i w =
           (Inr out, w2,
            t1 @ [Invoked (prop_js ''state'' v) (action i) (SWGlobal i),
                  Saved (evaluation_record c i out (newDate e w1)) True])"
  using assms by (simp add: reducer_unfold Let_def)


lemma foldl_split:
  "foldl (reducer e h c) acc (pre @ i # post) =
     foldl (reducer e h c) (reducer e h c (foldl (reducer e h c) acc pre) i) post"
  by simp

text \<open>Once the accumulator holds a wrapped value, every later step hands it on untouched.\<close>

lemma reducer_halted:
  assumes "acc w = (Inr (reduced x), w1, t1)" and "\<not> isReduced x"
  shows "reducer e h c acc i w = (Inr (reduced x), w1, t1)"
  using assms by (simp add: reducer_unfold isReduced_reduced value_reduced)

lemma foldl_halted:
  assumes "acc w = (Inr (reduced x), w1, t1)" and "\<not> isReduced x"
  shows "foldl (reducer e h c) acc xs w = (Inr (reduced x), w1, t1)"
  using assms
proof (induction xs arbitrary: acc)
  case Nil
  then show ?case by simp
next
  case (Cons i xs)
  have "reducer e h c acc i w = (Inr (reduced x), w1, t1)"
    using Cons.prems by (rule reducer_halted)
  then show ?case using Cons.IH Cons.prems(2) by simp
qed






text \<open>Every record handed to \<^verbatim>\<open>saveEvaluation\<close> is built by a step of the reduction.\<close>

lemma reducer_saved_events:
  assumes "Saved ev ok \<in> set (snd (snd (reducer e h c acc i w)))"
  shows "Saved ev ok \<in> set (snd (snd (acc w))) \<or> (\<exists>out d. ev = evaluation_record c i out d)"
  using assms
  by (auto simp add: reducer_unfold Let_def split: prod.splits sum.splits if_splits)

lemma foldl_saved_events:
  assumes "Saved ev ok \<in> set (snd (snd (foldl (reducer e h c) acc xs w)))"
  shows "Saved ev ok \<in> set (snd (snd (acc w)))
         \<or> (\<exists>i out d. i \<in> set xs \<and> ev = evaluation_record c i out d)"
  using assms
proof (induction xs rule: rev_induct)
  case Nil
  then show ?case by simp
next
  case (snoc x xs)
  from snoc.prems have
    "Saved ev ok \<in> set (snd (snd (reducer e h c (foldl (reducer e h c) acc xs) x w)))"
    by simp
  then have "Saved ev ok \<in> set (snd (snd (foldl (reducer e h c) acc xs w)))
      \<or> (\<exists>out d. ev = evaluation_record c x out d)"
    by (rule reducer_saved_events)
  then show ?case using snoc.IH by auto
qed






text \<open>Unfolding the evaluation on concrete inputs.\<close>

lemmas demo_simps = evaluateWith_unfold reducer_unfold Async_of_def Resolved_def initial_def
  step_output_def assocPath2_def failing_def isReduced_def reduced_def unwrap_def
  evaluation_record_def assoc_output_def demo_loader_def demo_env_def down_env_def
  demo_interaction_def demo_ctx_def persisted_def Let_def

lemma successful_step_output_has_state:
  assumes "acc w = (Inr v, w1, t1)" and "\<not> isReduced v"
    and "\<not> failing (step_output h i (prop_js ''state'' v))"
    and "out = JObj ([''state'' \<mapsto> prop_js ''state'' v]
                     ++ spread (step_output h i (prop_js ''state'' v)))"
    and "saveEvaluation e (evaluation_record c i out (newDate e w1)) w1 = (Inr x, w2)"
  shows "fst (reducer e h c acc i w) = Inr out \<and> spread out ''state'' \<noteq> None"
proof -
  have "reducer e h c acc i w =
           (Inr out, w2,
            t1 @ [Invoked (prop_js ''state'' v) (action i) (SWGlobal i),
                  Saved (evaluation_record c i out (newDate e w1)) True])"
    using assms by (rule reducer_saved)
  moreover have "spread out ''state'' \<noteq> None"
    unfolding assms(4) by (simp add: map_add_def split: option.splits)
  ultimately show ?thesis by simp
qed

section \<open>The properties\<close>

subsection \<open>C1: a failing step and the cache\<close>

text \<open>
  C1, as the source has it. A step whose output has a truthy \<^verbatim>\<open>result.error\<close>, whether
  the handler returned it or it was built from the reason the handler rejected with, is
  sent down the rejected arm, and \<^verbatim>\<open>cacheEvaluation\<close> sits in a \<^verbatim>\<open>chain\<close>, which the
  rejected arm skips. So when the step after the interactions \<open>pre\<close> fails (and its
  output does not carry the transducer marker), \<^verbatim>\<open>saveEvaluation\<close> is not called for
  it: the evaluation resolves with the failing output, the world is as the steps of
  \<open>pre\<close> left it, and the handler call is the last thing that happens. No record of the
  failing step is persisted.
\<close>

theorem failing_step_not_cached:
  assumes "actions c = pre @ i # post"
    and "foldl (reducer e (L (src c)) c) (Async_of (initial c)) pre w = (Inr v, w1, t1)"
    and "\<not> isReduced v"
    and "failing (step_output (L (src c)) i (prop_js ''state'' v))"
    and "\<not> isReduced (step_output (L (src c)) i (prop_js ''state'' v))"
  shows "evaluateWith e L c w =
           (Inr (assoc_output (step_output (L (src c)) i (prop_js ''state'' v)) c), w1,
            t1 @ [Invoked (prop_js ''state'' v) (action i) (SWGlobal i)])"
proof -
  let ?h = "L (src c)"
  let ?out = "step_output ?h i (prop_js ''state'' v)"
  have step: "reducer e ?h c (foldl (reducer e ?h c) (Async_of (initial c)) pre) i w =
      (Inr (reduced ?out), w1, t1 @ [Invoked (prop_js ''state'' v) (action i) (SWGlobal i)])"
    using assms(2,3,4) by (rule reducer_failing)
  have run: "foldl (reducer e ?h c) (Async_of (initial c)) (actions c) w =
      (Inr (reduced ?out), w1, t1 @ [Invoked (prop_js ''state'' v) (action i) (SWGlobal i)])"
    unfolding assms(1) foldl_split using step assms(5) by (rule foldl_halted)
  obtain m where m: "?out = JObj m" using step_output_object by blast
  show ?thesis
    unfolding evaluateWith_unfold run using assms(5) m by (simp add: unwrap_reduced)
qed

text \<open>
  A handler that returns \<^verbatim>\<open>{ result: { error: "boom" } }\<close> on the only interaction:
  the evaluation resolves with that output and nothing is persisted.
\<close>

theorem failing_step_not_cached_counterexample:
  "evaluateWith demo_env demo_loader (demo_ctx [demo_interaction ''0001'' ''boom'']) 0 =
     (Inr (assoc_output (JObj [''result'' \<mapsto> JObj [''error'' \<mapsto> JStr ''boom'']])
            (demo_ctx [demo_interaction ''0001'' ''boom''])), 0,
      [Invoked (JObj [''n'' \<mapsto> JNum 0]) (JStr ''boom'') JNull])
   \<and> persisted (snd (snd (evaluateWith demo_env demo_loader
          (demo_ctx [demo_interaction ''0001'' ''boom'']) 0))) = []"
  by (simp add: demo_simps)

theorem failing_step_not_cached_witness:
  "evaluateWith demo_env demo_loader
      (demo_ctx [demo_interaction ''0001'' ''inc'', demo_interaction ''0002'' ''trap'',
                 demo_interaction ''0003'' ''inc'']) 0 =
     (Inr (assoc_output (JObj [''result'' \<mapsto> JObj [''error'' \<mapsto> JStr ''unreachable'']])
            (demo_ctx [demo_interaction ''0001'' ''inc'', demo_interaction ''0002'' ''trap'',
                 demo_interaction ''0003'' ''inc''])), 1,
      [Invoked (JObj [''n'' \<mapsto> JNum 0]) (JStr ''inc'') JNull,
       Saved (evaluation_record
                (demo_ctx [demo_interaction ''0001'' ''inc'', demo_interaction ''0002'' ''trap'',
                 demo_interaction ''0003'' ''inc''])
                (demo_interaction ''0001'' ''inc'') (JObj [''state'' \<mapsto> JNum 1]) (JNum 0)) True,
       Invoked (JNum 1) (JStr ''trap'') JNull])"
proof -
  let ?c = "demo_ctx [demo_interaction ''0001'' ''inc'', demo_interaction ''0002'' ''trap'',
                 demo_interaction ''0003'' ''inc'']"
  let ?v = "JObj [''state'' \<mapsto> JNum 1]"
  let ?t1 = "[Invoked (JObj [''n'' \<mapsto> JNum 0]) (JStr ''inc'') JNull,
       Saved (evaluation_record ?c (demo_interaction ''0001'' ''inc'') ?v (JNum 0)) True]"
  have a: "actions ?c = [demo_interaction ''0001'' ''inc''] @ demo_interaction ''0002'' ''trap''
             # [demo_interaction ''0003'' ''inc'']"
    by (simp add: demo_ctx_def)
  have b: "foldl (reducer demo_env (demo_loader (src ?c)) ?c) (Async_of (initial ?c))
             [demo_interaction ''0001'' ''inc''] 0 = (Inr ?v, 1, ?t1)"
    by (simp add: demo_simps)
  have c: "\<not> isReduced ?v" by (simp add: isReduced_def)
  have d: "step_output (demo_loader (src ?c)) (demo_interaction ''0002'' ''trap'') (prop_js ''state'' ?v)
             = JObj [''result'' \<mapsto> JObj [''error'' \<mapsto> JStr ''unreachable'']]"
    by (simp add: demo_simps)
  have e: "failing (step_output (demo_loader (src ?c)) (demo_interaction ''0002'' ''trap'') (prop_js ''state'' ?v))"
    unfolding d by (simp add: failing_def)
  have f: "\<not> isReduced (step_output (demo_loader (src ?c)) (demo_interaction ''0002'' ''trap'') (prop_js ''state'' ?v))"
    unfolding d by (simp add: isReduced_def)
  show ?thesis
    using failing_step_not_cached [where L = demo_loader and e = demo_env and c = ?c and w = 0, OF a b c e f] d
    by (simp add: demo_interaction_def)
qed

subsection \<open>C2: short circuit\<close>

text \<open>
  C2 at a handler that rejects with \<^verbatim>\<open>undefined\<close>. The reason is mapped to
  \<^verbatim>\<open>{ result: { error: undefined } }\<close>, whose \<^verbatim>\<open>result.error\<close> is not truthy, so the
  step counts as successful: its record is persisted, and the handler is invoked for the
  next interaction, whose record is persisted too.
\<close>

theorem falsy_rejection_continues:
  "evaluateWith demo_env demo_loader
      (demo_ctx [demo_interaction ''0001'' ''silent'', demo_interaction ''0002'' ''inc'']) 0 =
     (Inr (assoc_output (JObj [''state'' \<mapsto> JNum 1])
             (demo_ctx [demo_interaction ''0001'' ''silent'', demo_interaction ''0002'' ''inc''])), 2,
      [Invoked (JObj [''n'' \<mapsto> JNum 0]) (JStr ''silent'') JNull,
       Saved (evaluation_record
                (demo_ctx [demo_interaction ''0001'' ''silent'', demo_interaction ''0002'' ''inc''])
                (demo_interaction ''0001'' ''silent'')
                (JObj [''state'' \<mapsto> JObj [''n'' \<mapsto> JNum 0],
                       ''result'' \<mapsto> JObj [''error'' \<mapsto> JUndefined]]) (JNum 0)) True,
       Invoked (JObj [''n'' \<mapsto> JNum 0]) (JStr ''inc'') JNull,
       Saved (evaluation_record
                (demo_ctx [demo_interaction ''0001'' ''silent'', demo_interaction ''0002'' ''inc''])
                (demo_interaction ''0002'' ''inc'') (JObj [''state'' \<mapsto> JNum 1]) (JNum 1)) True])"
  by (simp add: demo_simps)

subsection \<open>C3: a throwing handler\<close>



subsection \<open>C4: a save that rejects\<close>




subsection \<open>C5: carry-forward of the state\<close>

text \<open>
  C5. In a successful step (the accumulator is not wrapped, the handler resolves to an
  object \<open>m\<close> without a truthy \<^verbatim>\<open>result.error\<close>, the save resolves) whose output has no
  \<^verbatim>\<open>state\<close> property, the new accumulator is the output with \<^verbatim>\<open>state\<close> set to the
  previous state; that same object is the \<^verbatim>\<open>output\<close> of the record handed to the cache.
\<close>

theorem carry_forward_when_state_absent:
  assumes "acc w = (Inr v, w1, t1)" and "\<not> isReduced v"
    and "handle (prop_js ''state'' v) (action i) (SWGlobal i) = Inr m"
    and "\<not> failing (JObj m)"
    and "m ''state'' = None"
    and "saveEvaluation e
           (evaluation_record c i (JObj (m(''state'' \<mapsto> prop_js ''state'' v))) (newDate e w1)) w1
         = (Inr x, w2)"
  shows "reducer e handle c acc i w =
           (Inr (JObj (m(''state'' \<mapsto> prop_js ''state'' v))), w2,
            t1 @ [Invoked (prop_js ''state'' v) (action i) (SWGlobal i),
                  Saved (evaluation_record c i (JObj (m(''state'' \<mapsto> prop_js ''state'' v)))
                           (newDate e w1)) True])
         \<and> prop_js ''state'' (JObj (m(''state'' \<mapsto> prop_js ''state'' v))) = prop_js ''state'' v
         \<and> prop_js ''output''
              (evaluation_record c i (JObj (m(''state'' \<mapsto> prop_js ''state'' v))) (newDate e w1))
            = JObj (m(''state'' \<mapsto> prop_js ''state'' v))"
proof -
  have so: "step_output handle i (prop_js ''state'' v) = JObj m"
    using assms(3) by (simp add: step_output_def)
  have nf: "\<not> failing (step_output handle i (prop_js ''state'' v))"
    using assms(4) by (simp add: so)
  have eq: "JObj (m(''state'' \<mapsto> prop_js ''state'' v)) =
      JObj ([''state'' \<mapsto> prop_js ''state'' v] ++ spread (step_output handle i (prop_js ''state'' v)))"
    using assms(5) by (auto simp: so map_add_def fun_eq_iff split: option.splits)
  have "reducer e handle c acc i w =
           (Inr (JObj (m(''state'' \<mapsto> prop_js ''state'' v))), w2,
            t1 @ [Invoked (prop_js ''state'' v) (action i) (SWGlobal i),
                  Saved (evaluation_record c i (JObj (m(''state'' \<mapsto> prop_js ''state'' v)))
                           (newDate e w1)) True])"
    using assms(1,2) nf eq assms(6) by (rule reducer_saved)
  then show ?thesis by (simp add: evaluation_record_def)
qed

theorem carry_forward_when_state_absent_witness:
  "reducer demo_env demo_handle (demo_ctx []) (Async_of (JObj [''state'' \<mapsto> JNum 5]))
     (demo_interaction ''0001'' ''msg'') 3 =
     (Inr (JObj [''messages'' \<mapsto> JArr [JStr ''hello''], ''state'' \<mapsto> JNum 5]), 4,
      [Invoked (JNum 5) (JStr ''msg'') JNull,
       Saved (evaluation_record (demo_ctx []) (demo_interaction ''0001'' ''msg'')
                (JObj [''messages'' \<mapsto> JArr [JStr ''hello''], ''state'' \<mapsto> JNum 5]) (JNum 3))
         True])"
proof -
  let ?v = "JObj [''state'' \<mapsto> JNum 5]"
  let ?i = "demo_interaction ''0001'' ''msg''"
  let ?m = "[''messages'' \<mapsto> JArr [JStr ''hello'']]"
  have a: "Async_of ?v (3::nat) = (Inr ?v, 3, [])"
    by (simp add: Async_of_def Resolved_def)
  have b: "\<not> isReduced ?v" by (simp add: isReduced_def)
  have c: "demo_handle (prop_js ''state'' ?v) (action ?i) (SWGlobal ?i) = Inr ?m"
    by (simp add: demo_interaction_def)
  have d: "\<not> failing (JObj ?m)" by (simp add: failing_def)
  have e: "?m ''state'' = None" by simp
  have f: "saveEvaluation demo_env
             (evaluation_record (demo_ctx []) ?i (JObj (?m(''state'' \<mapsto> prop_js ''state'' ?v)))
                (newDate demo_env 3)) 3 = (Inr JUndefined, 4)"
    by (simp add: demo_env_def)
  show ?thesis
    using carry_forward_when_state_absent [where e = demo_env and c = "demo_ctx []"
        and handle = demo_handle and acc = "Async_of ?v" and w = 3 and v = ?v and i = ?i
        and m = ?m, OF a b c d e f]
    by (simp add: demo_env_def demo_interaction_def)
qed

subsection \<open>C6: a state property that is null\<close>

text \<open>
  C6, as the source has it. The new state of a successful step is decided by the object
  spread \<^verbatim>\<open>{ state, ...output }\<close>: it is the output's own \<^verbatim>\<open>state\<close> property when the
  output has one, whatever its value, \<^verbatim>\<open>null\<close> and \<^verbatim>\<open>undefined\<close> included, and the
  previous state only when the output has no such property.
\<close>

theorem state_own_property_overrides:
  assumes "acc w = (Inr v, w1, t1)" and "\<not> isReduced v"
    and "handle (prop_js ''state'' v) (action i) (SWGlobal i) = Inr m"
    and "\<not> failing (JObj m)"
    and "saveEvaluation e
           (evaluation_record c i (JObj ([''state'' \<mapsto> prop_js ''state'' v] ++ m)) (newDate e w1)) w1
         = (Inr x, w2)"
  shows "fst (reducer e handle c acc i w) = Inr (JObj ([''state'' \<mapsto> prop_js ''state'' v] ++ m))
         \<and> prop_js ''state'' (JObj ([''state'' \<mapsto> prop_js ''state'' v] ++ m)) =
             (case m ''state'' of Some s \<Rightarrow> s | None \<Rightarrow> prop_js ''state'' v)"
proof -
  have so: "step_output handle i (prop_js ''state'' v) = JObj m"
    using assms(3) by (simp add: step_output_def)
  have nf: "\<not> failing (step_output handle i (prop_js ''state'' v))"
    using assms(4) by (simp add: so)
  have eq: "JObj ([''state'' \<mapsto> prop_js ''state'' v] ++ m) =
      JObj ([''state'' \<mapsto> prop_js ''state'' v] ++ spread (step_output handle i (prop_js ''state'' v)))"
    by (simp add: so)
  have "reducer e handle c acc i w =
           (Inr (JObj ([''state'' \<mapsto> prop_js ''state'' v] ++ m)), w2,
            t1 @ [Invoked (prop_js ''state'' v) (action i) (SWGlobal i),
                  Saved (evaluation_record c i (JObj ([''state'' \<mapsto> prop_js ''state'' v] ++ m))
                           (newDate e w1)) True])"
    using assms(1,2) nf eq assms(5) by (rule reducer_saved)
  then show ?thesis by (simp add: map_add_def split: option.splits)
qed

text \<open>
  A handler that returns \<^verbatim>\<open>{ state: null }\<close> when the state is 5: the new state is
  \<^verbatim>\<open>null\<close>, where \<^verbatim>\<open>null ?? 5\<close> is 5.
\<close>

theorem state_nullish_counterexample:
  "demo_handle (JNum 5) (JStr ''null'') JNull = Inr [''state'' \<mapsto> JNull]
   \<and> fst (reducer demo_env demo_handle (demo_ctx []) (Async_of (JObj [''state'' \<mapsto> JNum 5]))
            (demo_interaction ''0001'' ''null'') 3) = Inr (JObj [''state'' \<mapsto> JNull])
   \<and> prop_js ''state'' (JObj [''state'' \<mapsto> JNull])
       \<noteq> nullish_coalesce (prop_js ''state'' (JObj [''state'' \<mapsto> JNull]))
           (prop_js ''state'' (JObj [''state'' \<mapsto> JNum 5]))"
  by (simp add: demo_simps nullish_coalesce_def)

theorem state_own_property_overrides_witness:
  "fst (reducer demo_env demo_handle (demo_ctx []) (Async_of (JObj [''state'' \<mapsto> JNum 5]))
          (demo_interaction ''0001'' ''null'') 3) = Inr (JObj [''state'' \<mapsto> JNull])"
proof -
  let ?v = "JObj [''state'' \<mapsto> JNum 5]"
  let ?i = "demo_interaction ''0001'' ''null''"
  let ?m = "[''state'' \<mapsto> JNull]"
  have a: "Async_of ?v (3::nat) = (Inr ?v, 3, [])"
    by (simp add: Async_of_def Resolved_def)
  have b: "\<not> isReduced ?v" by (simp add: isReduced_def)
  have c: "demo_handle (prop_js ''state'' ?v) (action ?i) (SWGlobal ?i) = Inr ?m"
    by (simp add: demo_interaction_def)
  have d: "\<not> failing (JObj ?m)" by (simp add: failing_def)
  have f: "saveEvaluation demo_env
             (evaluation_record (demo_ctx []) ?i (JObj ([''state'' \<mapsto> prop_js ''state'' ?v] ++ ?m))
                (newDate demo_env 3)) 3 = (Inr JUndefined, 4)"
    by (simp add: demo_env_def)
  show ?thesis
    using state_own_property_overrides [where e = demo_env and c = "demo_ctx []"
        and handle = demo_handle and acc = "Async_of ?v" and w = 3 and v = ?v and i = ?i
        and m = ?m, OF a b c d f]
    by simp
qed

subsection \<open>C7: no interactions\<close>




subsection \<open>C8: determinism\<close>



text \<open>
  The condition on the caches is needed, since a rejected save becomes the output: one
  context, once with a cache that accepts and once with a cache that rejects.
\<close>

lemma cache_verdict_matters:
  "fst (evaluateWith demo_env demo_loader (demo_ctx [demo_interaction ''0001'' ''inc'']) 0) =
     Inr (assoc_output (JObj [''state'' \<mapsto> JNum 1]) (demo_ctx [demo_interaction ''0001'' ''inc'']))
   \<and> fst (evaluateWith down_env demo_loader (demo_ctx [demo_interaction ''0001'' ''inc'']) 0) =
     Inr (assoc_output (JObj [''message'' \<mapsto> JStr ''db down''])
            (demo_ctx [demo_interaction ''0001'' ''inc'']))
   \<and> fst (evaluateWith demo_env demo_loader (demo_ctx [demo_interaction ''0001'' ''inc'']) 0)
       \<noteq> fst (evaluateWith down_env demo_loader (demo_ctx [demo_interaction ''0001'' ''inc'']) 0)"
proof -
  let ?c = "demo_ctx [demo_interaction ''0001'' ''inc'']"
  have a: "fst (evaluateWith demo_env demo_loader ?c 0) =
     Inr (assoc_output (JObj [''state'' \<mapsto> JNum 1]) ?c)"
    by (simp add: demo_simps)
  have b: "fst (evaluateWith down_env demo_loader ?c 0) =
     Inr (assoc_output (JObj [''message'' \<mapsto> JStr ''db down'']) ?c)"
    by (simp add: demo_simps)
  have "[''state'' \<mapsto> JNum 1] ''state'' \<noteq> [''message'' \<mapsto> JStr ''db down''] ''state''"
    by simp
  then have "[''state'' \<mapsto> JNum 1] \<noteq> [''message'' \<mapsto> JStr ''db down'']"
    by (rule contrapos_nn) (erule arg_cong)
  then have "assoc_output (JObj [''state'' \<mapsto> JNum 1]) ?c
      \<noteq> assoc_output (JObj [''message'' \<mapsto> JStr ''db down'']) ?c"
    by (simp add: assoc_output_def)
  with a b show ?thesis by simp
qed

subsection \<open>C9: the shape of a record\<close>

text \<open>
  C9, as the source has it. Every record handed to \<^verbatim>\<open>saveEvaluation\<close> during an
  evaluation has exactly the five properties \<^verbatim>\<open>sortKey\<close>, \<^verbatim>\<open>parent\<close>, \<^verbatim>\<open>action\<close>,
  \<^verbatim>\<open>output\<close> and \<^verbatim>\<open>cachedAt\<close>, for an interaction of the context; the process is
  named by \<^verbatim>\<open>parent\<close>, which is \<^verbatim>\<open>ctx.id\<close>.
\<close>

theorem saved_record_shape:
  assumes "Saved ev ok \<in> set (snd (snd (evaluateWith e L c w)))"
  shows "\<exists>i out d. i \<in> set (actions c)
           \<and> ev = JObj [''sortKey'' \<mapsto> sortKey i, ''parent'' \<mapsto> id' c, ''action'' \<mapsto> action i,
                        ''output'' \<mapsto> out, ''cachedAt'' \<mapsto> d]
           \<and> dom (spread ev) = {''sortKey'', ''parent'', ''action'', ''output'', ''cachedAt''}"
proof -
  from assms have
    "Saved ev ok \<in> set (snd (snd (foldl (reducer e (L (src c)) c) (Async_of (initial c)) (actions c) w)))"
    by (simp add: evaluateWith_trace)
  then have "Saved ev ok \<in> set (snd (snd (Async_of (initial c) w :: (jsval + jsval) \<times> 'a \<times> event list)))
         \<or> (\<exists>i out d. i \<in> set (actions c) \<and> ev = evaluation_record c i out d)"
    by (rule foldl_saved_events)
  then obtain i out d where i: "i \<in> set (actions c)" and ev: "ev = evaluation_record c i out d"
    by (auto simp: Async_of_def Resolved_def)
  have shape: "ev = JObj [''sortKey'' \<mapsto> sortKey i, ''parent'' \<mapsto> id' c, ''action'' \<mapsto> action i,
                        ''output'' \<mapsto> out, ''cachedAt'' \<mapsto> d]"
    unfolding ev evaluation_record_def ..
  have keys: "dom (spread ev) = {''sortKey'', ''parent'', ''action'', ''output'', ''cachedAt''}"
    unfolding shape by (simp add: insert_commute)
  from i shape keys show ?thesis by blast
qed

text \<open>The record of a run with one interaction: it has no \<^verbatim>\<open>processId\<close> property.\<close>

theorem saved_record_shape_counterexample:
  "snd (snd (evaluateWith demo_env demo_loader (demo_ctx [demo_interaction ''0001'' ''inc'']) 0)) =
     [Invoked (JObj [''n'' \<mapsto> JNum 0]) (JStr ''inc'') JNull,
      Saved (JObj [''sortKey'' \<mapsto> JStr ''0001'', ''parent'' \<mapsto> JStr ''p1'',
                   ''action'' \<mapsto> JStr ''inc'', ''output'' \<mapsto> JObj [''state'' \<mapsto> JNum 1],
                   ''cachedAt'' \<mapsto> JNum 0]) True]
   \<and> spread (JObj [''sortKey'' \<mapsto> JStr ''0001'', ''parent'' \<mapsto> JStr ''p1'',
                   ''action'' \<mapsto> JStr ''inc'', ''output'' \<mapsto> JObj [''state'' \<mapsto> JNum 1],
                   ''cachedAt'' \<mapsto> JNum 0]) ''processId'' = None"
  by (simp add: demo_simps)

theorem saved_record_shape_witness:
  "Saved (JObj [''sortKey'' \<mapsto> JStr ''0001'', ''parent'' \<mapsto> JStr ''p1'',
                ''action'' \<mapsto> JStr ''inc'', ''output'' \<mapsto> JObj [''state'' \<mapsto> JNum 1],
                ''cachedAt'' \<mapsto> JNum 0]) True
     \<in> set (snd (snd (evaluateWith demo_env demo_loader
                         (demo_ctx [demo_interaction ''0001'' ''inc'']) 0)))
   \<and> dom (spread (JObj [''sortKey'' \<mapsto> JStr ''0001'', ''parent'' \<mapsto> JStr ''p1'',
                   ''action'' \<mapsto> JStr ''inc'', ''output'' \<mapsto> JObj [''state'' \<mapsto> JNum 1],
                   ''cachedAt'' \<mapsto> JNum 0])) =
     {''sortKey'', ''parent'', ''action'', ''output'', ''cachedAt''}"
proof -
  let ?ev = "JObj [''sortKey'' \<mapsto> JStr ''0001'', ''parent'' \<mapsto> JStr ''p1'',
                   ''action'' \<mapsto> JStr ''inc'', ''output'' \<mapsto> JObj [''state'' \<mapsto> JNum 1],
                   ''cachedAt'' \<mapsto> JNum 0]"
  have mem: "Saved ?ev True \<in> set (snd (snd (evaluateWith demo_env demo_loader
            (demo_ctx [demo_interaction ''0001'' ''inc'']) 0)))"
    by (simp add: demo_simps)
  from saved_record_shape [OF mem]
  have keys: "dom (spread ?ev) = {''sortKey'', ''parent'', ''action'', ''output'', ''cachedAt''}"
    by (elim exE conjE)
  from mem keys show ?thesis by (rule conjI)
qed

subsection \<open>C10: the output always has a state\<close>

text \<open>
  C10 at a handler whose output carries the transducer marker:
  \<^verbatim>\<open>{ '@@transducer/reduced': true, '@@transducer/value': { x: 1 } }\<close>. The step is
  successful and its record, with a \<^verbatim>\<open>state\<close>, is persisted; but at the end
  \<^verbatim>\<open>maybeResolveError\<close> takes the accumulator for a wrapped error and unwraps it, so the
  overall output is \<^verbatim>\<open>{ x: 1 }\<close>, which has no \<^verbatim>\<open>state\<close> property.
\<close>

theorem marker_output_unwrapped:
  "evaluateWith demo_env demo_loader (demo_ctx [demo_interaction ''0001'' ''mark'']) 0 =
     (Inr (assoc_output (JObj [''x'' \<mapsto> JNum 1]) (demo_ctx [demo_interaction ''0001'' ''mark''])), 1,
      [Invoked (JObj [''n'' \<mapsto> JNum 0]) (JStr ''mark'') JNull,
       Saved (evaluation_record (demo_ctx [demo_interaction ''0001'' ''mark''])
                (demo_interaction ''0001'' ''mark'')
                (JObj [''state'' \<mapsto> JObj [''n'' \<mapsto> JNum 0],
                       ''@@transducer/reduced'' \<mapsto> JBool True,
                       ''@@transducer/value'' \<mapsto> JObj [''x'' \<mapsto> JNum 1]]) (JNum 0)) True])
   \<and> spread (JObj [''x'' \<mapsto> JNum 1]) ''state'' = None"
  by (simp add: demo_simps)

end
